theory Spec2Isabelle
  imports Main "HOL-Library.Word"
begin

unbundle bit_operations_syntax

section \<open>Compile-time configuration\<close>

text \<open>
  The firmware is specialised by the preprocessor. Every macro that the sources test with
  \<^verbatim>\<open>#ifdef\<close> or \<^verbatim>\<open>#if defined\<close> is a field of the build
  configuration: the compiler's own \<^verbatim>\<open>__XC16__\<close>, the register names that the
  device header \<^verbatim>\<open>xc.h\<close> may or may not define, the options that
  \<^verbatim>\<open>config.h\<close> offers for editing, and the three clock macros, which
  \<^verbatim>\<open>config.h\<close> defines only under \<^verbatim>\<open>#ifndef\<close> and which may therefore
  be defined beforehand. The width of the bit-field \<^verbatim>\<open>AD1CHS0bits.CH0SA\<close> is
  declared in the device header as well and is a field too.
\<close>

record build_config =
  XC16 :: bool
  def_LATB :: bool
  def_TRISB :: bool
  def_TRISBbits :: bool
  def_AD1CON1 :: bool
  def_AD1CHS0 :: bool
  def_ADC1BUF0 :: bool
  CH0SA_bits :: nat
  CONFIG_PORT_B_ENABLED :: bool
  CONFIG_OSC_INTERNO_PLL :: bool
  CONFIG_OSC_INTERNO_SIMPLE :: bool
  CONFIG_OSC_EXTERNO_PLL :: bool
  CONFIG_OSC_EXTERNO_SIMPLE :: bool
  predef_FOSC_PRIM :: "nat option"
  predef_FOSC :: "nat option"
  predef_FCY :: "nat option"

text \<open>
  The configuration of the repository as it is checked in (\<^verbatim>\<open>config.h\<close> selects the
  internal oscillator with PLL and enables port B), built with XC16 for a device whose
  header defines every register the sources ask for and gives CH0SA five bits.
\<close>

definition repo_config :: build_config where
  "repo_config = \<lparr>XC16 = True, def_LATB = True, def_TRISB = True, def_TRISBbits = False,
     def_AD1CON1 = True, def_AD1CHS0 = True, def_ADC1BUF0 = True, CH0SA_bits = 5,
     CONFIG_PORT_B_ENABLED = True,
     CONFIG_OSC_INTERNO_PLL = True, CONFIG_OSC_INTERNO_SIMPLE = False,
     CONFIG_OSC_EXTERNO_PLL = False, CONFIG_OSC_EXTERNO_SIMPLE = False,
     predef_FOSC_PRIM = None, predef_FOSC = None, predef_FCY = None\<rparr>"

section \<open>Statement sequences and polling loops\<close>

text \<open>
  A function body that is a straight sequence of statements is the list of its
  statements, each a state transformer. \<open>run_stmts\<close> executes the list;
  \<open>stmt_trace\<close> gives the state at every program point, the entry state first.
\<close>

fun run_stmts :: "('s \<Rightarrow> 's) list \<Rightarrow> 's \<Rightarrow> 's" where
  "run_stmts [] s = s"
| "run_stmts (f # fs) s = run_stmts fs (f s)"

fun stmt_trace :: "('s \<Rightarrow> 's) list \<Rightarrow> 's \<Rightarrow> 's list" where
  "stmt_trace [] s = [s]"
| "stmt_trace (f # fs) s = s # stmt_trace fs (f s)"

text \<open>
  The busy-wait loops of the firmware poll a \<^verbatim>\<open>volatile\<close> location with an empty
  body (or a \<^verbatim>\<open>nop\<close>): the program itself never changes what it polls. What
  changes it is the environment: the converter hardware, or an interrupt handler.
  \<open>env k\<close> is what the environment does to the state between poll number \<open>k\<close>
  and the next one. \<open>poll_until done env k s\<close> is the loop
  \<^verbatim>\<open>while (!done) { }\<close> entered at poll \<open>k\<close> in state \<open>s\<close>; the value
  \<open>None\<close> says that the loop never exits.
\<close>

partial_function (option) poll_until ::
    "('s \<Rightarrow> bool) \<Rightarrow> (nat \<Rightarrow> 's \<Rightarrow> 's) \<Rightarrow> nat \<Rightarrow> 's \<Rightarrow> 's option" where
  "poll_until done env k s =
     (if done s then Some s else poll_until done env (Suc k) (env k s))"

declare poll_until.simps [code]

text \<open>The state seen by the poll that comes \<open>n\<close> polls after poll \<open>k\<close>.\<close>

fun env_steps :: "(nat \<Rightarrow> 's \<Rightarrow> 's) \<Rightarrow> nat \<Rightarrow> nat \<Rightarrow> 's \<Rightarrow> 's" where
  "env_steps env k 0 s = s"
| "env_steps env k (Suc n) s = env_steps env (Suc k) n (env k s)"

section \<open>System lifecycle (config.c)\<close>

datatype System_State_t =
  SYS_STATE_INIT | SYS_STATE_READY | SYS_STATE_BUSY | SYS_STATE_ERROR | SYS_STATE_SLEEP

text \<open>
  The state that \<^verbatim>\<open>config.c\<close> reads and writes: its static variable
  \<^verbatim>\<open>system_state\<close>, the port B registers, and the global interrupt enable that the
  two interrupt builtins act on.
\<close>

record system =
  system_state :: System_State_t
  interrupts_enabled :: bool
  LATB :: "16 word"
  TRISB :: "16 word"

text \<open>
  Modelled from the spec: the compiler builtin \<^verbatim>\<open>__builtin_enable_interrupts\<close> is
  not part of the sources. The specification describes the interrupt gate as a single
  process-wide maskable-interrupt flag that Enable sets and Disable clears, with no
  nesting count.
\<close>

definition builtin_enable_interrupts :: "system \<Rightarrow> system" where
  "builtin_enable_interrupts s = s\<lparr>interrupts_enabled := True\<rparr>"

text \<open>
  Modelled from the spec: \<^verbatim>\<open>__builtin_disable_interrupts\<close>, missing from the sources
  like its counterpart, clears the same flag.
\<close>

definition builtin_disable_interrupts :: "system \<Rightarrow> system" where
  "builtin_disable_interrupts s = s\<lparr>interrupts_enabled := False\<rparr>"

text \<open>
  Outside XC16 the fallback branch of \<^verbatim>\<open>SYSTEM_EnableInterrupts\<close> holds only a
  comment, and \<^verbatim>\<open>SYSTEM_DisableInterrupts\<close> has no fallback at all.
\<close>

definition SYSTEM_EnableInterrupts :: "build_config \<Rightarrow> system \<Rightarrow> system" where
  "SYSTEM_EnableInterrupts cfg s = (if XC16 cfg then builtin_enable_interrupts s else s)"

definition SYSTEM_DisableInterrupts :: "build_config \<Rightarrow> system \<Rightarrow> system" where
  "SYSTEM_DisableInterrupts cfg s = (if XC16 cfg then builtin_disable_interrupts s else s)"

text \<open>
  \<^verbatim>\<open>ports_init\<close>: the latch is cleared first; then, with port B enabled, RB0..RB7
  become outputs, bit by bit where the header offers \<^verbatim>\<open>TRISBbits\<close> and by the mask
  \<^verbatim>\<open>(uint16_t)~0x00FF\<close> otherwise; with port B not enabled they become inputs.
\<close>

definition TRISBbits_clear :: "nat \<Rightarrow> system \<Rightarrow> system" where
  "TRISBbits_clear n s = s\<lparr>TRISB := unset_bit n (TRISB s)\<rparr>"

definition ports_init_body :: "build_config \<Rightarrow> (system \<Rightarrow> system) list" where
  "ports_init_body cfg =
     (if def_LATB cfg then [\<lambda>s. s\<lparr>LATB := 0x0000\<rparr>] else []) @
     (if CONFIG_PORT_B_ENABLED cfg then
        (if def_TRISBbits cfg then
           [TRISBbits_clear 0, TRISBbits_clear 1, TRISBbits_clear 2, TRISBbits_clear 3,
            TRISBbits_clear 4, TRISBbits_clear 5, TRISBbits_clear 6, TRISBbits_clear 7]
         else [\<lambda>s. s\<lparr>TRISB := TRISB s AND NOT 0x00FF\<rparr>])
      else
        (if def_TRISB cfg then [\<lambda>s. s\<lparr>TRISB := TRISB s OR 0x00FF\<rparr>] else []))"

definition ports_init :: "build_config \<Rightarrow> system \<Rightarrow> system" where
  "ports_init cfg s = run_stmts (ports_init_body cfg) s"

definition SYSTEM_Initialize_body :: "build_config \<Rightarrow> (system \<Rightarrow> system) list" where
  "SYSTEM_Initialize_body cfg =
     [SYSTEM_DisableInterrupts cfg,
      ports_init cfg,
      (\<lambda>s. s\<lparr>system_state := SYS_STATE_READY\<rparr>),
      SYSTEM_EnableInterrupts cfg]"

definition SYSTEM_Initialize :: "build_config \<Rightarrow> system \<Rightarrow> system" where
  "SYSTEM_Initialize cfg s = run_stmts (SYSTEM_Initialize_body cfg) s"

definition SYSTEM_Deinitialize :: "build_config \<Rightarrow> system \<Rightarrow> system" where
  "SYSTEM_Deinitialize cfg s =
     (let s1 = (if def_TRISB cfg then s\<lparr>TRISB := TRISB s OR 0x00FF\<rparr> else s)
      in s1\<lparr>system_state := SYS_STATE_INIT\<rparr>)"

text \<open>
  \<^verbatim>\<open>SYSTEM_EnterSleep\<close> first marks the state and then polls it until it is no
  longer \<^verbatim>\<open>SYS_STATE_SLEEP\<close>. The loop body is a \<^verbatim>\<open>nop\<close>; \<open>isr k\<close> is
  what the other execution contexts (interrupt handlers) do between two polls.
\<close>

definition SYSTEM_EnterSleep_mark :: "system \<Rightarrow> system" where
  "SYSTEM_EnterSleep_mark s = s\<lparr>system_state := SYS_STATE_SLEEP\<rparr>"

definition SYSTEM_EnterSleep :: "(nat \<Rightarrow> system \<Rightarrow> system) \<Rightarrow> system \<Rightarrow> system option" where
  "SYSTEM_EnterSleep isr s =
     poll_until (\<lambda>t. \<not> (system_state t = SYS_STATE_SLEEP)) isr 0 (SYSTEM_EnterSleep_mark s)"

definition SYSTEM_Wakeup :: "system \<Rightarrow> system" where
  "SYSTEM_Wakeup s =
     (if system_state s = SYS_STATE_SLEEP then s\<lparr>system_state := SYS_STATE_READY\<rparr> else s)"

text \<open>
  \<^verbatim>\<open>SYSTEM_Reset\<close> marks the state and enters \<^verbatim>\<open>while (1)\<close>: a polling loop
  whose exit condition is never true.
\<close>

definition SYSTEM_Reset_mark :: "system \<Rightarrow> system" where
  "SYSTEM_Reset_mark s = s\<lparr>system_state := SYS_STATE_INIT\<rparr>"

definition SYSTEM_Reset :: "(nat \<Rightarrow> system \<Rightarrow> system) \<Rightarrow> system \<Rightarrow> system option" where
  "SYSTEM_Reset isr s = poll_until (\<lambda>t. False) isr 0 (SYSTEM_Reset_mark s)"

definition SYSTEM_GetState :: "system \<Rightarrow> System_State_t" where
  "SYSTEM_GetState s = system_state s"

text \<open>
  The lifecycle as a transition system over the memory of \<^verbatim>\<open>config.c\<close>. At
  power-on the static initialiser makes the state \<^verbatim>\<open>SYS_STATE_INIT\<close>; the
  registers hold anything. Each rule is the effect on memory of one lifecycle operation,
  called from the main program or from an interrupt handler. For the two operations that
  block, the effect is the mark they write before they start polling: the loops
  themselves write nothing, and what other contexts do meanwhile is again a step.
\<close>

inductive reachable :: "build_config \<Rightarrow> system \<Rightarrow> bool" for cfg :: build_config where
  power_on: "system_state s = SYS_STATE_INIT \<Longrightarrow> reachable cfg s"
| Initialize: "reachable cfg s \<Longrightarrow> reachable cfg (SYSTEM_Initialize cfg s)"
| Deinitialize: "reachable cfg s \<Longrightarrow> reachable cfg (SYSTEM_Deinitialize cfg s)"
| EnterSleep: "reachable cfg s \<Longrightarrow> reachable cfg (SYSTEM_EnterSleep_mark s)"
| Wakeup: "reachable cfg s \<Longrightarrow> reachable cfg (SYSTEM_Wakeup s)"
| Reset: "reachable cfg s \<Longrightarrow> reachable cfg (SYSTEM_Reset_mark s)"
| EnableInterrupts: "reachable cfg s \<Longrightarrow> reachable cfg (SYSTEM_EnableInterrupts cfg s)"
| DisableInterrupts: "reachable cfg s \<Longrightarrow> reachable cfg (SYSTEM_DisableInterrupts cfg s)"

section \<open>Clock configuration (config.h)\<close>









section \<open>Analog-to-digital converter (adc.h, adc.c)\<close>

definition ADC_RESOLUTION_BITS :: nat where
  "ADC_RESOLUTION_BITS = 12"

text \<open>\<^verbatim>\<open>((1u << ADC_RESOLUTION_BITS) - 1u)\<close>, an \<^verbatim>\<open>unsigned int\<close> of 16 bits.\<close>

definition ADC_MAX_VALUE :: "16 word" where
  "ADC_MAX_VALUE = push_bit ADC_RESOLUTION_BITS 1 - 1"

text \<open>
  What the conversion functions read and write: the bit-fields SAMP and DONE of
  \<^verbatim>\<open>AD1CON1\<close>, the multiplexer field CH0SA of \<^verbatim>\<open>AD1CHS0\<close>, the result buffer
  and the driver's static \<^verbatim>\<open>adc_last_result\<close>.
\<close>

record adc =
  AD1CON1_SAMP :: bool
  AD1CON1_DONE :: bool
  AD1CHS0_CH0SA :: "16 word"
  ADC1BUF0 :: "16 word"
  adc_last_result :: "16 word"

text \<open>
  The acquisition delay \<^verbatim>\<open>for (volatile int i = 0; i < 60; ++i) { __builtin_nop(); }\<close>:
  the counter is local and the body changes nothing.
\<close>

function acquisition_delay :: "int \<Rightarrow> adc \<Rightarrow> adc" where
  "acquisition_delay i s = (if i < 60 then acquisition_delay (i + 1) s else s)"
  by pat_completeness auto
termination
  by (relation "measure (\<lambda>(i, s). nat (60 - i))") auto

declare acquisition_delay.simps [simp del]

text \<open>
  \<^verbatim>\<open>ADC_StartSingle\<close>: the assignment of the \<^verbatim>\<open>uint8_t\<close> channel to the
  bit-field keeps the low \<open>CH0SA_bits\<close> bits. There is no other use of the channel.
\<close>

definition ADC_StartSingle :: "build_config \<Rightarrow> 8 word \<Rightarrow> adc \<Rightarrow> adc" where
  "ADC_StartSingle cfg channel s =
     (let s1 = (if def_AD1CHS0 cfg
                then s\<lparr>AD1CHS0_CH0SA := take_bit (CH0SA_bits cfg) (ucast channel)\<rparr> else s);
          s2 = (if def_AD1CON1 cfg then s1\<lparr>AD1CON1_SAMP := True\<rparr> else s1);
          s3 = acquisition_delay 0 s2;
          s4 = (if def_AD1CON1 cfg then s3\<lparr>AD1CON1_SAMP := False\<rparr> else s3)
      in s4)"

text \<open>
  The outcome of a call of \<^verbatim>\<open>ADC_StartSingle\<close> as its caller sees it. The function
  returns \<^verbatim>\<open>void\<close> and has no path that aborts or reports an error: every call
  completes.
\<close>

datatype adc_outcome = Completed adc | ContractViolation

definition ADC_StartSingle_outcome :: "build_config \<Rightarrow> 8 word \<Rightarrow> adc \<Rightarrow> adc_outcome" where
  "ADC_StartSingle_outcome cfg channel s = Completed (ADC_StartSingle cfg channel s)"

definition ADC_IsConversionDone :: "build_config \<Rightarrow> adc \<Rightarrow> bool" where
  "ADC_IsConversionDone cfg s = (if def_AD1CON1 cfg then AD1CON1_DONE s else True)"

definition ADC_GetResult :: "build_config \<Rightarrow> adc \<Rightarrow> 16 word \<times> adc" where
  "ADC_GetResult cfg s =
     (let r = (if def_ADC1BUF0 cfg then ADC1BUF0 s else 0);
          s1 = s\<lparr>adc_last_result := r AND ADC_MAX_VALUE\<rparr>
      in (adc_last_result s1, s1))"

text \<open>
  \<^verbatim>\<open>ADC_ReadSingleBlocking\<close>: start, wait for DONE, read and mask. The converter
  works while the program runs: \<open>hw 0\<close> is what the hardware does to the registers
  between the last write of \<^verbatim>\<open>ADC_StartSingle\<close> (SAMP from 1 to 0, which starts
  the conversion) and the next access of the program, the first poll of DONE;
  \<open>hw k\<close> for \<open>k > 0\<close> is what it does between poll \<open>k\<close> and the poll after
  it. Without \<^verbatim>\<open>AD1CON1\<close> the wait is compiled out and the next access is the
  read of the buffer.
\<close>

definition ADC_ReadSingleBlocking ::
    "build_config \<Rightarrow> (nat \<Rightarrow> adc \<Rightarrow> adc) \<Rightarrow> 8 word \<Rightarrow> adc \<Rightarrow> (16 word \<times> adc) option" where
  "ADC_ReadSingleBlocking cfg hw channel s =
     (let s1 = hw 0 (ADC_StartSingle cfg channel s)
      in case (if def_AD1CON1 cfg then poll_until AD1CON1_DONE hw 1 s1 else Some s1) of
           None \<Rightarrow> None
         | Some s2 \<Rightarrow>
             (let r = (if def_ADC1BUF0 cfg then ADC1BUF0 s2 else 0);
                  s3 = s2\<lparr>adc_last_result := r AND ADC_MAX_VALUE\<rparr>
              in Some (adc_last_result s3, s3)))"

section \<open>Concrete inputs\<close>

text \<open>
  Converter hardware that finishes a conversion between the second and the third poll,
  leaving a raw value with bits set above the twelfth in the buffer.
\<close>

definition hw_after_two :: "nat \<Rightarrow> adc \<Rightarrow> adc" where
  "hw_after_two k s = (if k = 2 then s\<lparr>AD1CON1_DONE := True, ADC1BUF0 := 0xFABC\<rparr> else s)"

text \<open>
  Converter hardware that does what the start of a conversion asks for: it clears DONE
  when the conversion starts, and between the second and the third poll it sets DONE
  and puts the new sample into the buffer.
\<close>

definition hw_new_conversion :: "nat \<Rightarrow> adc \<Rightarrow> adc" where
  "hw_new_conversion k s =
     (if k = 0 then s\<lparr>AD1CON1_DONE := False\<rparr>
      else if k = 2 then s\<lparr>AD1CON1_DONE := True, ADC1BUF0 := 0x0111\<rparr>
      else s)"

text \<open>A converter at rest, with a stale value in the buffer.\<close>

definition adc_idle :: adc where
  "adc_idle = \<lparr>AD1CON1_SAMP = False, AD1CON1_DONE = False, AD1CHS0_CH0SA = 0,
     ADC1BUF0 = 0xFFFF, adc_last_result = 0\<rparr>"

text \<open>A converter whose conversion-complete flag is set.\<close>

definition adc_done :: adc where
  "adc_done = \<lparr>AD1CON1_SAMP = False, AD1CON1_DONE = True, AD1CHS0_CH0SA = 0,
     ADC1BUF0 = 0x1234, adc_last_result = 0\<rparr>"

text \<open>
  The repository configuration on a device whose multiplexer field has two bits, enough
  to address four channels.
\<close>

definition four_channel_config :: build_config where
  "four_channel_config = repo_config\<lparr>CH0SA_bits := 2\<rparr>"

text \<open>The system right after power-on, with arbitrary port registers.\<close>

definition system_power_on :: system where
  "system_power_on = \<lparr>system_state = SYS_STATE_INIT, interrupts_enabled = True,
     LATB = 0x00A5, TRISB = 0xFFFF\<rparr>"

text \<open>
  The repository configuration built with a compiler that does not define
  \<^verbatim>\<open>__XC16__\<close>.
\<close>

definition non_xc16_config :: build_config where
  "non_xc16_config = repo_config\<lparr>XC16 := False\<rparr>"


text \<open>
  An interrupt context that stays quiet for two polls and calls
  \<^verbatim>\<open>SYSTEM_Wakeup\<close> after the third.
\<close>

definition isr_wakeup_after_two :: "nat \<Rightarrow> system \<Rightarrow> system" where
  "isr_wakeup_after_two k s = (if k = 2 then SYSTEM_Wakeup s else s)"

text \<open>
  An interrupt context that stays quiet for two polls and calls
  \<^verbatim>\<open>SYSTEM_Deinitialize\<close> after the third. It never calls
  \<^verbatim>\<open>SYSTEM_Wakeup\<close>.
\<close>

definition isr_deinitialize_after_two :: "nat \<Rightarrow> system \<Rightarrow> system" where
  "isr_deinitialize_after_two k s = (if k = 2 then SYSTEM_Deinitialize repo_config s else s)"

section \<open>Polling loops\<close>

lemma poll_until_exit:
  "done (env_steps env k n s) \<Longrightarrow> (\<forall>m<n. \<not> done (env_steps env k m s)) \<Longrightarrow>
   poll_until done env k s = Some (env_steps env k n s)"
proof (induction n arbitrary: k s)
  case 0
  then show ?case by (simp add: poll_until.simps)
next
  case (Suc n)
  from Suc.prems(2) have "\<not> done s" by fastforce
  moreover have "\<forall>m<n. \<not> done (env_steps env (Suc k) m (env k s))"
  proof (intro allI impI)
    fix m assume "m < n"
    then have "Suc m < Suc n" by simp
    with Suc.prems(2) have "\<not> done (env_steps env k (Suc m) s)" by blast
    then show "\<not> done (env_steps env (Suc k) m (env k s))" by simp
  qed
  moreover from Suc.prems(1) have "done (env_steps env (Suc k) n (env k s))" by simp
  ultimately show ?case
    using Suc.IH [of "Suc k" "env k s"] by (simp add: poll_until.simps)
qed

lemma poll_until_Some:
  "poll_until done env k s = Some t \<Longrightarrow>
   \<exists>n. t = env_steps env k n s \<and> done t \<and> (\<forall>m<n. \<not> done (env_steps env k m s))"
proof (induction "done" env k s t rule: poll_until.raw_induct [rotated 1, consumes 1])
  case (1 f dn env k s t)
  show ?case
  proof (cases "dn s")
    case True
    with 1(2) have "t = s" by simp
    with True have "t = env_steps env k 0 s \<and> dn t \<and> (\<forall>m<0. \<not> dn (env_steps env k m s))"
      by simp
    then show ?thesis by blast
  next
    case False
    with 1(2) have "f dn env (Suc k) (env k s) = Some t" by simp
    then obtain n where n: "t = env_steps env (Suc k) n (env k s)" "dn t"
      "\<forall>m<n. \<not> dn (env_steps env (Suc k) m (env k s))" using 1(1) by blast
    have "\<forall>m<Suc n. \<not> dn (env_steps env k m s)"
    proof (intro allI impI)
      fix m assume m: "m < Suc n"
      show "\<not> dn (env_steps env k m s)"
      proof (cases m)
        case 0
        with False show ?thesis by simp
      next
        case (Suc j)
        with m n(3) show ?thesis by simp
      qed
    qed
    with n(1,2) have "t = env_steps env k (Suc n) s \<and> dn t \<and>
        (\<forall>m<Suc n. \<not> dn (env_steps env k m s))" by simp
    then show ?thesis by blast
  qed
qed

lemma poll_until_None_iff:
  "poll_until done env k s = None \<longleftrightarrow> (\<forall>n. \<not> done (env_steps env k n s))"
proof
  assume none: "poll_until done env k s = None"
  show "\<forall>n. \<not> done (env_steps env k n s)"
  proof (rule ccontr)
    assume "\<not> (\<forall>n. \<not> done (env_steps env k n s))"
    then have ex: "\<exists>n. done (env_steps env k n s)" by simp
    define n where "n = (LEAST n. done (env_steps env k n s))"
    from ex have "done (env_steps env k n s)" unfolding n_def by (rule LeastI_ex)
    moreover have "\<forall>m<n. \<not> done (env_steps env k m s)"
      unfolding n_def using not_less_Least by blast
    ultimately have "poll_until done env k s = Some (env_steps env k n s)"
      by (rule poll_until_exit)
    with none show False by simp
  qed
next
  assume never: "\<forall>n. \<not> done (env_steps env k n s)"
  show "poll_until done env k s = None"
  proof (cases "poll_until done env k s")
    case None
    then show ?thesis .
  next
    case (Some t)
    from poll_until_Some [OF this] never show ?thesis by blast
  qed
qed

section \<open>Properties of the converter\<close>

lemma acquisition_delay_id: "acquisition_delay i s = s"
proof (induction i s rule: acquisition_delay.induct)
  case (1 i s)
  then show ?case by (subst acquisition_delay.simps) simp
qed

lemma ADC_MAX_VALUE_eq: "ADC_MAX_VALUE = 4095"
  by (simp add: ADC_MAX_VALUE_def ADC_RESOLUTION_BITS_def)

lemma ADC_StartSingle_keeps:
  "AD1CON1_DONE (ADC_StartSingle cfg channel s) = AD1CON1_DONE s"
  "ADC1BUF0 (ADC_StartSingle cfg channel s) = ADC1BUF0 s"
  "adc_last_result (ADC_StartSingle cfg channel s) = adc_last_result s"
  by (simp_all add: ADC_StartSingle_def acquisition_delay_id Let_def)

lemma ADC_StartSingle_fields:
  "AD1CHS0_CH0SA (ADC_StartSingle cfg channel s) =
     (if def_AD1CHS0 cfg then take_bit (CH0SA_bits cfg) (ucast channel) else AD1CHS0_CH0SA s)"
  "AD1CON1_SAMP (ADC_StartSingle cfg channel s) =
     (if def_AD1CON1 cfg then False else AD1CON1_SAMP s)"
  by (simp_all add: ADC_StartSingle_def acquisition_delay_id Let_def)

lemma ADC_ReadSingleBlocking_unfold:
  "ADC_ReadSingleBlocking cfg hw channel s =
     map_option (ADC_GetResult cfg)
       (if def_AD1CON1 cfg
        then poll_until AD1CON1_DONE hw 1 (hw 0 (ADC_StartSingle cfg channel s))
        else Some (hw 0 (ADC_StartSingle cfg channel s)))"
  by (simp add: ADC_ReadSingleBlocking_def ADC_GetResult_def Let_def split: option.splits)

lemma ADC_GetResult_range:
  assumes "ADC_GetResult cfg s = (v, s')"
  shows "uint v \<le> 4095" and "v \<le> ADC_MAX_VALUE" and "adc_last_result s' = v"
proof -
  define r where "r = (if def_ADC1BUF0 cfg then ADC1BUF0 s else 0)"
  have "fst (ADC_GetResult cfg s) = r AND ADC_MAX_VALUE"
    by (simp add: ADC_GetResult_def Let_def r_def)
  with assms have v: "v = r AND ADC_MAX_VALUE" by simp
  have "adc_last_result (snd (ADC_GetResult cfg s)) = fst (ADC_GetResult cfg s)"
    by (simp add: ADC_GetResult_def Let_def)
  with assms show "adc_last_result s' = v" by simp
  from v show le: "v \<le> ADC_MAX_VALUE" by (simp add: word_and_le1)
  then have "uint v \<le> uint ADC_MAX_VALUE" by (simp only: word_le_def)
  then show "uint v \<le> 4095" by (simp add: ADC_MAX_VALUE_eq)
qed

text \<open>
  Claim C1. Whatever the channel, the hardware and the raw content of the result buffer,
  a value returned by \<^verbatim>\<open>ADC_ReadSingleBlocking\<close> lies in 0..4095 and is the
  value cached in \<^verbatim>\<open>adc_last_result\<close>: it is masked with
  \<^verbatim>\<open>ADC_MAX_VALUE\<close> on the way out. The call fails to return exactly when the
  wait loop is compiled in and no poll after the start of the conversion finds DONE.
\<close>

theorem ADC_ReadSingleBlocking_range:
  "(ADC_ReadSingleBlocking cfg hw channel s = Some (v, s') \<longrightarrow>
      0 \<le> uint v \<and> uint v \<le> 4095 \<and> v \<le> ADC_MAX_VALUE \<and> adc_last_result s' = v) \<and>
   (ADC_ReadSingleBlocking cfg hw channel s = None \<longleftrightarrow>
      def_AD1CON1 cfg \<and>
      (\<forall>n. \<not> AD1CON1_DONE (env_steps hw 0 (Suc n) (ADC_StartSingle cfg channel s))))"
proof (intro conjI impI)
  assume "ADC_ReadSingleBlocking cfg hw channel s = Some (v, s')"
  then obtain s2 where g: "ADC_GetResult cfg s2 = (v, s')"
    unfolding ADC_ReadSingleBlocking_unfold by blast
  show "0 \<le> uint v" by simp
  from g show "uint v \<le> 4095" by (rule ADC_GetResult_range)
  from g show "v \<le> ADC_MAX_VALUE" by (rule ADC_GetResult_range)
  from g show "adc_last_result s' = v" by (rule ADC_GetResult_range)
next
  show "ADC_ReadSingleBlocking cfg hw channel s = None \<longleftrightarrow>
      def_AD1CON1 cfg \<and>
      (\<forall>n. \<not> AD1CON1_DONE (env_steps hw 0 (Suc n) (ADC_StartSingle cfg channel s)))"
    by (simp add: ADC_ReadSingleBlocking_unfold poll_until_None_iff)
qed

lemma ADC_ReadSingleBlocking_example:
  "ADC_ReadSingleBlocking repo_config hw_after_two 0 adc_idle =
     Some (0xABC, \<lparr>AD1CON1_SAMP = False, AD1CON1_DONE = True, AD1CHS0_CH0SA = 0,
       ADC1BUF0 = 0xFABC, adc_last_result = 0xABC\<rparr>)"
  by code_simp

theorem ADC_ReadSingleBlocking_range_witness:
  "ADC_ReadSingleBlocking repo_config hw_after_two 0 adc_idle =
     Some (0xABC, \<lparr>AD1CON1_SAMP = False, AD1CON1_DONE = True, AD1CHS0_CH0SA = 0,
       ADC1BUF0 = 0xFABC, adc_last_result = 0xABC\<rparr>) \<and>
   uint (0xABC :: 16 word) \<le> 4095 \<and>
   \<not> (\<forall>n. \<not> AD1CON1_DONE
         (env_steps hw_after_two 0 (Suc n) (ADC_StartSingle repo_config 0 adc_idle)))"
  using ADC_ReadSingleBlocking_range [of repo_config hw_after_two 0 adc_idle "0xABC"
      "\<lparr>AD1CON1_SAMP = False, AD1CON1_DONE = True, AD1CHS0_CH0SA = 0,
       ADC1BUF0 = 0xFABC, adc_last_result = 0xABC\<rparr>"] ADC_ReadSingleBlocking_example
  by (simp add: repo_config_def)

text \<open>
  Claim C3 as stated: from every register state with the conversion-complete flag set,
  \<^verbatim>\<open>ADC_GetResult\<close> and \<^verbatim>\<open>ADC_ReadSingleBlocking\<close> return the same value.
  They do not: the blocking read starts a conversion of its own and returns its sample.
  With 0x1234 in the buffer and DONE set, \<^verbatim>\<open>ADC_GetResult\<close> returns 0x234; the
  blocking read, on hardware that converts 0x111, returns 0x111.
\<close>

theorem ADC_GetResult_differs_from_blocking_read_counterexample:
  "ADC_IsConversionDone repo_config adc_done \<and>
   fst (ADC_GetResult repo_config adc_done) = 0x234 \<and>
   map_option fst (ADC_ReadSingleBlocking repo_config hw_new_conversion 5 adc_done) = Some 0x111 \<and>
   map_option fst (ADC_ReadSingleBlocking repo_config hw_new_conversion 5 adc_done) \<noteq>
     Some (fst (ADC_GetResult repo_config adc_done))"
  by code_simp

text \<open>
  Claim C3, amended. The blocking read is \<^verbatim>\<open>ADC_StartSingle\<close>, then the wait until
  \<^verbatim>\<open>ADC_IsConversionDone\<close> is true, then exactly the computation of
  \<^verbatim>\<open>ADC_GetResult\<close>: whenever it returns, the value and the driver state it
  returns are those that \<^verbatim>\<open>ADC_GetResult\<close> returns from the register state in
  which the wait ended, a state in which \<^verbatim>\<open>ADC_IsConversionDone\<close> is true. Both
  paths compute the same result from the same result buffer.
\<close>

theorem ADC_ReadSingleBlocking_ends_with_GetResult:
  "ADC_ReadSingleBlocking cfg hw channel s =
     (case (if def_AD1CON1 cfg
            then poll_until (ADC_IsConversionDone cfg) hw 1 (hw 0 (ADC_StartSingle cfg channel s))
            else Some (hw 0 (ADC_StartSingle cfg channel s))) of
        None \<Rightarrow> None
      | Some s2 \<Rightarrow> Some (ADC_GetResult cfg s2)) \<and>
   (\<forall>v s'. ADC_ReadSingleBlocking cfg hw channel s = Some (v, s') \<longrightarrow>
      (\<exists>n s2. s2 = env_steps hw 0 (Suc n) (ADC_StartSingle cfg channel s) \<and>
         ADC_IsConversionDone cfg s2 \<and> ADC_GetResult cfg s2 = (v, s')))"
proof (intro conjI allI impI)
  have "ADC_IsConversionDone cfg = AD1CON1_DONE" if "def_AD1CON1 cfg"
    using that by (simp add: ADC_IsConversionDone_def fun_eq_iff)
  then show "ADC_ReadSingleBlocking cfg hw channel s =
     (case (if def_AD1CON1 cfg
            then poll_until (ADC_IsConversionDone cfg) hw 1 (hw 0 (ADC_StartSingle cfg channel s))
            else Some (hw 0 (ADC_StartSingle cfg channel s))) of
        None \<Rightarrow> None
      | Some s2 \<Rightarrow> Some (ADC_GetResult cfg s2))"
    by (simp add: ADC_ReadSingleBlocking_unfold split: option.splits)
next
  fix v s'
  assume ret: "ADC_ReadSingleBlocking cfg hw channel s = Some (v, s')"
  let ?s1 = "ADC_StartSingle cfg channel s"
  show "\<exists>n s2. s2 = env_steps hw 0 (Suc n) ?s1 \<and>
         ADC_IsConversionDone cfg s2 \<and> ADC_GetResult cfg s2 = (v, s')"
  proof (cases "def_AD1CON1 cfg")
    case True
    with ret obtain s2 where w: "poll_until AD1CON1_DONE hw 1 (hw 0 ?s1) = Some s2"
      and g: "ADC_GetResult cfg s2 = (v, s')"
      unfolding ADC_ReadSingleBlocking_unfold by auto
    from poll_until_Some [OF w] obtain n where "s2 = env_steps hw 1 n (hw 0 ?s1)"
      and "AD1CON1_DONE s2" by blast
    then have "s2 = env_steps hw 0 (Suc n) ?s1" and "ADC_IsConversionDone cfg s2"
      using True by (simp_all add: ADC_IsConversionDone_def)
    with g show ?thesis by blast
  next
    case False
    with ret have g: "ADC_GetResult cfg (hw 0 ?s1) = (v, s')"
      unfolding ADC_ReadSingleBlocking_unfold by simp
    have "hw 0 ?s1 = env_steps hw 0 (Suc 0) ?s1" by simp
    moreover from False have "ADC_IsConversionDone cfg (hw 0 ?s1)"
      by (simp add: ADC_IsConversionDone_def)
    ultimately show ?thesis using g by blast
  qed
qed

lemma ADC_ReadSingleBlocking_new_conversion:
  "ADC_ReadSingleBlocking repo_config hw_new_conversion 5 adc_done =
     Some (0x111, \<lparr>AD1CON1_SAMP = False, AD1CON1_DONE = True, AD1CHS0_CH0SA = 5,
       ADC1BUF0 = 0x0111, adc_last_result = 0x111\<rparr>)"
  by code_simp

theorem ADC_ReadSingleBlocking_ends_with_GetResult_witness:
  "ADC_ReadSingleBlocking repo_config hw_new_conversion 5 adc_done =
     Some (0x111, \<lparr>AD1CON1_SAMP = False, AD1CON1_DONE = True, AD1CHS0_CH0SA = 5,
       ADC1BUF0 = 0x0111, adc_last_result = 0x111\<rparr>) \<and>
   (\<exists>n s2. s2 = env_steps hw_new_conversion 0 (Suc n) (ADC_StartSingle repo_config 5 adc_done) \<and>
      ADC_IsConversionDone repo_config s2 \<and>
      ADC_GetResult repo_config s2 =
        (0x111, \<lparr>AD1CON1_SAMP = False, AD1CON1_DONE = True, AD1CHS0_CH0SA = 5,
           ADC1BUF0 = 0x0111, adc_last_result = 0x111\<rparr>))"
proof -
  note ends = ADC_ReadSingleBlocking_ends_with_GetResult [of repo_config hw_new_conversion 5 adc_done]
  from ends [THEN conjunct2, rule_format, OF ADC_ReadSingleBlocking_new_conversion]
    ADC_ReadSingleBlocking_new_conversion
  show ?thesis by (intro conjI)
qed

text \<open>
  Claim C2 as stated: on a converter with four channels \<^verbatim>\<open>ADC_StartSingle(9)\<close>
  raises a contract violation. It does not. With the two-bit multiplexer field of a
  four-channel converter the call completes and input 1 is selected, the low two bits
  of 9; with the five-bit field it completes and input 9 is selected.
\<close>

theorem ADC_StartSingle_channel_9_counterexample:
  "ADC_StartSingle_outcome four_channel_config 9 adc_idle =
     Completed (adc_idle\<lparr>AD1CHS0_CH0SA := 1\<rparr>) \<and>
   ADC_StartSingle_outcome four_channel_config 9 adc_idle \<noteq> ContractViolation \<and>
   ADC_StartSingle_outcome repo_config 9 adc_idle =
     Completed (adc_idle\<lparr>AD1CHS0_CH0SA := 9\<rparr>) \<and>
   ADC_StartSingle_outcome repo_config 9 adc_idle \<noteq> ContractViolation"
  by (simp add: ADC_StartSingle_outcome_def ADC_StartSingle_def acquisition_delay_id
      four_channel_config_def repo_config_def adc_idle_def)

text \<open>
  Claim C2, amended. \<^verbatim>\<open>ADC_StartSingle\<close> knows no channel count and checks no
  range: for every channel value the call completes. Where the device has
  \<^verbatim>\<open>AD1CHS0\<close> the multiplexer field holds the channel cut to the width of the
  field, which is the channel itself when it fits; where it has \<^verbatim>\<open>AD1CON1\<close>
  sampling has been stopped; nothing else has changed.
\<close>

theorem ADC_StartSingle_never_fails:
  "ADC_StartSingle_outcome cfg channel s = Completed (ADC_StartSingle cfg channel s) \<and>
   ADC_StartSingle_outcome cfg channel s \<noteq> ContractViolation \<and>
   AD1CHS0_CH0SA (ADC_StartSingle cfg channel s) =
     (if def_AD1CHS0 cfg then take_bit (CH0SA_bits cfg) (ucast channel) else AD1CHS0_CH0SA s) \<and>
   (def_AD1CHS0 cfg \<and> unat channel < 2 ^ CH0SA_bits cfg \<longrightarrow>
      AD1CHS0_CH0SA (ADC_StartSingle cfg channel s) = ucast channel) \<and>
   AD1CON1_SAMP (ADC_StartSingle cfg channel s) =
     (if def_AD1CON1 cfg then False else AD1CON1_SAMP s) \<and>
   AD1CON1_DONE (ADC_StartSingle cfg channel s) = AD1CON1_DONE s \<and>
   ADC1BUF0 (ADC_StartSingle cfg channel s) = ADC1BUF0 s \<and>
   adc_last_result (ADC_StartSingle cfg channel s) = adc_last_result s"
proof -
  have "take_bit (CH0SA_bits cfg) (ucast channel :: 16 word) = ucast channel"
    if "unat channel < 2 ^ CH0SA_bits cfg"
    using that by (metis unsigned_take_bit_eq word_unat_eq_iff take_bit_nat_eq_self_iff)
  then show ?thesis
    by (simp add: ADC_StartSingle_outcome_def ADC_StartSingle_keeps ADC_StartSingle_fields)
qed

theorem ADC_StartSingle_never_fails_witness:
  "def_AD1CHS0 four_channel_config \<and> unat (3 :: 8 word) < 2 ^ CH0SA_bits four_channel_config \<and>
   ADC_StartSingle_outcome four_channel_config 3 adc_idle \<noteq> ContractViolation \<and>
   AD1CHS0_CH0SA (ADC_StartSingle four_channel_config 3 adc_idle) = 3 \<and>
   ADC_StartSingle_outcome four_channel_config 9 adc_idle \<noteq> ContractViolation \<and>
   AD1CHS0_CH0SA (ADC_StartSingle four_channel_config 9 adc_idle) = 1 \<and>
   ADC_StartSingle_outcome repo_config 9 adc_idle \<noteq> ContractViolation \<and>
   AD1CHS0_CH0SA (ADC_StartSingle repo_config 9 adc_idle) = 9"
  using ADC_StartSingle_never_fails [of four_channel_config 3 adc_idle]
    ADC_StartSingle_never_fails [of four_channel_config 9 adc_idle]
    ADC_StartSingle_never_fails [of repo_config 9 adc_idle]
  by (simp add: four_channel_config_def repo_config_def)

section \<open>Properties of the system lifecycle\<close>

text \<open>
  Claim C4. \<^verbatim>\<open>SYSTEM_Wakeup\<close> sets the state to Ready when the current state is
  Sleep, and only then: in every other state (Init, Ready, Busy, Error) the call changes
  nothing at all.
\<close>

theorem SYSTEM_Wakeup_only_from_sleep:
  "(system_state s = SYS_STATE_SLEEP \<longrightarrow>
      SYSTEM_Wakeup s = s\<lparr>system_state := SYS_STATE_READY\<rparr>) \<and>
   (system_state s \<noteq> SYS_STATE_SLEEP \<longrightarrow> SYSTEM_Wakeup s = s) \<and>
   (system_state (SYSTEM_Wakeup s) \<noteq> system_state s \<longleftrightarrow> system_state s = SYS_STATE_SLEEP)"
  by (simp add: SYSTEM_Wakeup_def)

theorem SYSTEM_Wakeup_only_from_sleep_witness:
  "SYSTEM_GetState (SYSTEM_Wakeup \<lparr>system_state = SYS_STATE_SLEEP, interrupts_enabled = True,
      LATB = 0, TRISB = 0\<rparr>) = SYS_STATE_READY \<and>
   SYSTEM_Wakeup \<lparr>system_state = SYS_STATE_BUSY, interrupts_enabled = True,
      LATB = 0, TRISB = 0\<rparr> =
     \<lparr>system_state = SYS_STATE_BUSY, interrupts_enabled = True, LATB = 0, TRISB = 0\<rparr>"
  using SYSTEM_Wakeup_only_from_sleep [of "\<lparr>system_state = SYS_STATE_SLEEP,
      interrupts_enabled = True, LATB = 0, TRISB = 0\<rparr>"]
    SYSTEM_Wakeup_only_from_sleep [of "\<lparr>system_state = SYS_STATE_BUSY,
      interrupts_enabled = True, LATB = 0, TRISB = 0\<rparr>"]
  by (simp add: SYSTEM_GetState_def)

lemma run_stmts_preserves:
  "(\<And>f s. f \<in> set fs \<Longrightarrow> g (f s) = g s) \<Longrightarrow> g (run_stmts fs s) = g s"
  by (induction fs arbitrary: s) simp_all

lemma stmt_trace_preserves:
  "(\<And>f s. f \<in> set fs \<Longrightarrow> g (f s) = g s) \<Longrightarrow> t \<in> set (stmt_trace fs s) \<Longrightarrow> g t = g s"
  by (induction fs arbitrary: s) auto

lemma ports_init_body_keeps:
  "f \<in> set (ports_init_body cfg) \<Longrightarrow> interrupts_enabled (f s) = interrupts_enabled s"
  "f \<in> set (ports_init_body cfg) \<Longrightarrow> system_state (f s) = system_state s"
  by (auto simp: ports_init_body_def TRISBbits_clear_def split: if_splits)

lemma ports_init_keeps:
  "interrupts_enabled (ports_init cfg s) = interrupts_enabled s"
  "system_state (ports_init cfg s) = system_state s"
  unfolding ports_init_def
  by (rule run_stmts_preserves, erule ports_init_body_keeps)+

lemma clear_low_byte:
  "unset_bit 7 (unset_bit 6 (unset_bit 5 (unset_bit 4 (unset_bit 3 (unset_bit 2
     (unset_bit (Suc 0) (unset_bit 0 w))))))) = w AND NOT 0xFF" for w :: "16 word"
proof -
  have m: "(0xFF :: 16 word) = mask 8" by (simp add: mask_eq_exp_minus_1)
  have "unset_bit 7 (unset_bit 6 (unset_bit 5 (unset_bit 4 (unset_bit 3 (unset_bit 2
     (unset_bit (Suc 0) (unset_bit 0 w))))))) = w AND NOT (mask 8)"
  proof (rule bit_word_eqI)
    fix n assume "n < LENGTH(16)"
    have "n < 8 \<longleftrightarrow> n = 7 \<or> n = 6 \<or> n = 5 \<or> n = 4 \<or> n = 3 \<or> n = 2 \<or> n = Suc 0 \<or> n = 0"
      by arith
    then show "bit (unset_bit 7 (unset_bit 6 (unset_bit 5 (unset_bit 4 (unset_bit 3 (unset_bit 2
       (unset_bit (Suc 0) (unset_bit 0 w)))))))) n = bit (w AND NOT (mask 8)) n"
      by (simp only: bit_unset_bit_iff bit_and_iff bit_not_iff bit_mask_iff) (auto dest: bit_imp_le_length)
  qed
  then show ?thesis by (simp only: m)
qed

lemma ports_init_regs:
  "LATB (ports_init cfg s) = (if def_LATB cfg then 0 else LATB s)"
  "TRISB (ports_init cfg s) =
     (if CONFIG_PORT_B_ENABLED cfg then TRISB s AND NOT 0xFF
      else if def_TRISB cfg then TRISB s OR 0xFF else TRISB s)"
  by (simp_all add: ports_init_def ports_init_body_def TRISBbits_clear_def clear_low_byte)

lemma SYSTEM_Initialize_eq:
  "SYSTEM_Initialize cfg s =
     SYSTEM_EnableInterrupts cfg
       ((ports_init cfg (SYSTEM_DisableInterrupts cfg s))\<lparr>system_state := SYS_STATE_READY\<rparr>)"
  by (simp add: SYSTEM_Initialize_def SYSTEM_Initialize_body_def)

lemma SYSTEM_Initialize_fields:
  "system_state (SYSTEM_Initialize cfg s) = SYS_STATE_READY"
  "interrupts_enabled (SYSTEM_Initialize cfg s) = (if XC16 cfg then True else interrupts_enabled s)"
  "LATB (SYSTEM_Initialize cfg s) = (if def_LATB cfg then 0 else LATB s)"
  "TRISB (SYSTEM_Initialize cfg s) =
     (if CONFIG_PORT_B_ENABLED cfg then TRISB s AND NOT 0xFF
      else if def_TRISB cfg then TRISB s OR 0xFF else TRISB s)"
  by (simp_all add: SYSTEM_Initialize_eq SYSTEM_EnableInterrupts_def SYSTEM_DisableInterrupts_def
      builtin_enable_interrupts_def builtin_disable_interrupts_def ports_init_keeps ports_init_regs)

text \<open>
  Claim C5. \<^verbatim>\<open>SYSTEM_Initialize\<close> is a total function of the state: it has no
  failure path and from every starting state it ends in Ready. Called twice in
  succession it ends in Ready both times, and the second call changes nothing that the
  first left behind.
\<close>

theorem SYSTEM_Initialize_ready_idempotent:
  "SYSTEM_GetState (SYSTEM_Initialize cfg s) = SYS_STATE_READY \<and>
   SYSTEM_GetState (SYSTEM_Initialize cfg (SYSTEM_Initialize cfg s)) = SYS_STATE_READY \<and>
   SYSTEM_Initialize cfg (SYSTEM_Initialize cfg s) = SYSTEM_Initialize cfg s"
proof -
  have "SYSTEM_Initialize cfg (SYSTEM_Initialize cfg s) = SYSTEM_Initialize cfg s"
    by (rule system.equality) (simp_all add: SYSTEM_Initialize_fields)
  then show ?thesis by (simp add: SYSTEM_GetState_def SYSTEM_Initialize_fields)
qed


theorem SYSTEM_Initialize_ready_idempotent_witness:
  "SYSTEM_Initialize repo_config system_power_on =
     \<lparr>system_state = SYS_STATE_READY, interrupts_enabled = True, LATB = 0, TRISB = 0xFF00\<rparr> \<and>
   SYSTEM_Initialize repo_config (SYSTEM_Initialize repo_config system_power_on) =
     \<lparr>system_state = SYS_STATE_READY, interrupts_enabled = True, LATB = 0, TRISB = 0xFF00\<rparr>"
proof -
  have "SYSTEM_Initialize repo_config system_power_on =
     \<lparr>system_state = SYS_STATE_READY, interrupts_enabled = True, LATB = 0, TRISB = 0xFF00\<rparr>"
    by (simp add: SYSTEM_Initialize_def SYSTEM_Initialize_body_def ports_init_def
        ports_init_body_def SYSTEM_EnableInterrupts_def SYSTEM_DisableInterrupts_def
        builtin_enable_interrupts_def builtin_disable_interrupts_def repo_config_def
        system_power_on_def)
  with SYSTEM_Initialize_ready_idempotent [of repo_config system_power_on]
  show ?thesis by simp
qed

text \<open>
  Claim C6 as stated: port configuration is never performed while interrupts are
  enabled. In a build without \<^verbatim>\<open>__XC16__\<close> it is: the two gate functions are
  empty there, and when the caller has interrupts enabled they are enabled at every
  program point of \<^verbatim>\<open>SYSTEM_Initialize\<close>, those of \<^verbatim>\<open>ports_init\<close> included.
\<close>

theorem SYSTEM_Initialize_ports_with_interrupts_enabled_counterexample:
  "stmt_trace (SYSTEM_Initialize_body non_xc16_config) system_power_on =
     [\<lparr>system_state = SYS_STATE_INIT, interrupts_enabled = True, LATB = 0x00A5, TRISB = 0xFFFF\<rparr>,
      \<lparr>system_state = SYS_STATE_INIT, interrupts_enabled = True, LATB = 0x00A5, TRISB = 0xFFFF\<rparr>,
      \<lparr>system_state = SYS_STATE_INIT, interrupts_enabled = True, LATB = 0, TRISB = 0xFF00\<rparr>,
      \<lparr>system_state = SYS_STATE_READY, interrupts_enabled = True, LATB = 0, TRISB = 0xFF00\<rparr>,
      \<lparr>system_state = SYS_STATE_READY, interrupts_enabled = True, LATB = 0, TRISB = 0xFF00\<rparr>] \<and>
   stmt_trace (ports_init_body non_xc16_config)
       (SYSTEM_DisableInterrupts non_xc16_config system_power_on) =
     [\<lparr>system_state = SYS_STATE_INIT, interrupts_enabled = True, LATB = 0x00A5, TRISB = 0xFFFF\<rparr>,
      \<lparr>system_state = SYS_STATE_INIT, interrupts_enabled = True, LATB = 0, TRISB = 0xFFFF\<rparr>,
      \<lparr>system_state = SYS_STATE_INIT, interrupts_enabled = True, LATB = 0, TRISB = 0xFF00\<rparr>] \<and>
   interrupts_enabled (ports_init non_xc16_config
       (SYSTEM_DisableInterrupts non_xc16_config system_power_on))"
  by (simp add: SYSTEM_Initialize_body_def ports_init_def ports_init_body_def
      SYSTEM_EnableInterrupts_def SYSTEM_DisableInterrupts_def non_xc16_config_def
      repo_config_def system_power_on_def)

text \<open>
  Claim C6, amended. In every build the program points of \<^verbatim>\<open>SYSTEM_Initialize\<close>
  come in the order: entry; after \<^verbatim>\<open>SYSTEM_DisableInterrupts\<close>; after the port
  setup; after the state is set to Ready; after \<^verbatim>\<open>SYSTEM_EnableInterrupts\<close>. The
  port registers change nowhere but in the port setup, and the state becomes Ready
  after the port setup and before the last call. In a build with \<^verbatim>\<open>__XC16__\<close>
  the interrupt flag is off at every program point from the first call to the last,
  those inside \<^verbatim>\<open>ports_init\<close> included, and on at the end. In a build without
  it the flag is at every program point what it was at entry.
\<close>

theorem SYSTEM_Initialize_order:
  "(let tr = stmt_trace (SYSTEM_Initialize_body cfg) s in
      length tr = 5 \<and>
      tr ! 0 = s \<and>
      tr ! 1 = SYSTEM_DisableInterrupts cfg s \<and>
      tr ! 2 = ports_init cfg (tr ! 1) \<and>
      tr ! 3 = (tr ! 2)\<lparr>system_state := SYS_STATE_READY\<rparr> \<and>
      tr ! 4 = SYSTEM_EnableInterrupts cfg (tr ! 3) \<and>
      tr ! 4 = SYSTEM_Initialize cfg s \<and>
      (LATB (tr ! 1) = LATB s \<and> TRISB (tr ! 1) = TRISB s) \<and>
      (LATB (tr ! 4) = LATB (tr ! 2) \<and> TRISB (tr ! 4) = TRISB (tr ! 2)) \<and>
      (system_state (tr ! 1) = system_state s \<and> system_state (tr ! 2) = system_state s) \<and>
      (system_state (tr ! 3) = SYS_STATE_READY \<and> system_state (tr ! 4) = SYS_STATE_READY) \<and>
      (XC16 cfg \<longrightarrow>
         \<not> interrupts_enabled (tr ! 1) \<and>
         (\<forall>t \<in> set (stmt_trace (ports_init_body cfg) (tr ! 1)). \<not> interrupts_enabled t) \<and>
         \<not> interrupts_enabled (tr ! 2) \<and>
         \<not> interrupts_enabled (tr ! 3) \<and>
         interrupts_enabled (tr ! 4)) \<and>
      (\<not> XC16 cfg \<longrightarrow>
         (\<forall>t \<in> set tr. interrupts_enabled t = interrupts_enabled s) \<and>
         (\<forall>t \<in> set (stmt_trace (ports_init_body cfg) (tr ! 1)).
            interrupts_enabled t = interrupts_enabled s)))"
proof -
  define tr where "tr = stmt_trace (SYSTEM_Initialize_body cfg) s"
  let ?s1 = "SYSTEM_DisableInterrupts cfg s"
  let ?s2 = "ports_init cfg ?s1"
  let ?s3 = "?s2\<lparr>system_state := SYS_STATE_READY\<rparr>"
  let ?s4 = "SYSTEM_EnableInterrupts cfg ?s3"
  have tr: "tr = [s, ?s1, ?s2, ?s3, ?s4]"
    by (simp add: tr_def SYSTEM_Initialize_body_def)
  have 1: "length tr = 5" and 2: "tr ! 0 = s" and 3: "tr ! 1 = SYSTEM_DisableInterrupts cfg s"
    and 4: "tr ! 2 = ports_init cfg (tr ! 1)"
    and 5: "tr ! 3 = (tr ! 2)\<lparr>system_state := SYS_STATE_READY\<rparr>"
    and 6: "tr ! 4 = SYSTEM_EnableInterrupts cfg (tr ! 3)"
    by (simp_all add: tr)
  have 7: "tr ! 4 = SYSTEM_Initialize cfg s"
    by (simp add: tr SYSTEM_Initialize_eq)
  have 8: "LATB (tr ! 1) = LATB s \<and> TRISB (tr ! 1) = TRISB s"
    by (simp add: tr SYSTEM_DisableInterrupts_def builtin_disable_interrupts_def)
  have 9: "LATB (tr ! 4) = LATB (tr ! 2) \<and> TRISB (tr ! 4) = TRISB (tr ! 2)"
    by (simp add: tr SYSTEM_EnableInterrupts_def builtin_enable_interrupts_def)
  have 10: "system_state (tr ! 1) = system_state s \<and> system_state (tr ! 2) = system_state s"
    by (simp add: tr ports_init_keeps SYSTEM_DisableInterrupts_def builtin_disable_interrupts_def)
  have 11: "system_state (tr ! 3) = SYS_STATE_READY \<and> system_state (tr ! 4) = SYS_STATE_READY"
    by (simp add: tr SYSTEM_EnableInterrupts_def builtin_enable_interrupts_def)
  have inner: "interrupts_enabled t = interrupts_enabled (tr ! 1)"
    if "t \<in> set (stmt_trace (ports_init_body cfg) (tr ! 1))" for t
    using that by (rule stmt_trace_preserves [rotated]) (erule ports_init_body_keeps)
  have 12: "\<not> interrupts_enabled (tr ! 1) \<and>
         (\<forall>t \<in> set (stmt_trace (ports_init_body cfg) (tr ! 1)). \<not> interrupts_enabled t) \<and>
         \<not> interrupts_enabled (tr ! 2) \<and>
         \<not> interrupts_enabled (tr ! 3) \<and>
         interrupts_enabled (tr ! 4)" if xc: "XC16 cfg"
  proof -
    have off: "\<not> interrupts_enabled (tr ! 1)"
      using xc by (simp add: tr SYSTEM_DisableInterrupts_def builtin_disable_interrupts_def)
    with inner have "\<forall>t \<in> set (stmt_trace (ports_init_body cfg) (tr ! 1)). \<not> interrupts_enabled t"
      by blast
    moreover from off have "\<not> interrupts_enabled (tr ! 2)" "\<not> interrupts_enabled (tr ! 3)"
      by (simp_all add: tr ports_init_keeps)
    moreover from xc have "interrupts_enabled (tr ! 4)"
      by (simp add: tr SYSTEM_EnableInterrupts_def builtin_enable_interrupts_def)
    ultimately show ?thesis using off by blast
  qed
  have 13: "(\<forall>t \<in> set tr. interrupts_enabled t = interrupts_enabled s) \<and>
         (\<forall>t \<in> set (stmt_trace (ports_init_body cfg) (tr ! 1)).
            interrupts_enabled t = interrupts_enabled s)" if nxc: "\<not> XC16 cfg"
  proof -
    from nxc have same: "\<forall>t \<in> set tr. interrupts_enabled t = interrupts_enabled s"
      by (simp add: tr ports_init_keeps SYSTEM_DisableInterrupts_def SYSTEM_EnableInterrupts_def)
    from nxc have "interrupts_enabled (tr ! 1) = interrupts_enabled s"
      by (simp add: tr SYSTEM_DisableInterrupts_def)
    with inner have "\<forall>t \<in> set (stmt_trace (ports_init_body cfg) (tr ! 1)).
        interrupts_enabled t = interrupts_enabled s" by simp
    with same show ?thesis by blast
  qed
  from 1 2 3 4 5 6 7 8 9 10 11 12 13 show ?thesis
    unfolding Let_def tr_def by blast
qed

theorem SYSTEM_Initialize_order_witness:
  "XC16 repo_config \<and>
   stmt_trace (SYSTEM_Initialize_body repo_config) system_power_on =
     [\<lparr>system_state = SYS_STATE_INIT, interrupts_enabled = True, LATB = 0x00A5, TRISB = 0xFFFF\<rparr>,
      \<lparr>system_state = SYS_STATE_INIT, interrupts_enabled = False, LATB = 0x00A5, TRISB = 0xFFFF\<rparr>,
      \<lparr>system_state = SYS_STATE_INIT, interrupts_enabled = False, LATB = 0, TRISB = 0xFF00\<rparr>,
      \<lparr>system_state = SYS_STATE_READY, interrupts_enabled = False, LATB = 0, TRISB = 0xFF00\<rparr>,
      \<lparr>system_state = SYS_STATE_READY, interrupts_enabled = True, LATB = 0, TRISB = 0xFF00\<rparr>] \<and>
   stmt_trace (ports_init_body repo_config)
       \<lparr>system_state = SYS_STATE_INIT, interrupts_enabled = False, LATB = 0x00A5, TRISB = 0xFFFF\<rparr> =
     [\<lparr>system_state = SYS_STATE_INIT, interrupts_enabled = False, LATB = 0x00A5, TRISB = 0xFFFF\<rparr>,
      \<lparr>system_state = SYS_STATE_INIT, interrupts_enabled = False, LATB = 0, TRISB = 0xFFFF\<rparr>,
      \<lparr>system_state = SYS_STATE_INIT, interrupts_enabled = False, LATB = 0, TRISB = 0xFF00\<rparr>] \<and>
   \<not> XC16 non_xc16_config \<and>
   interrupts_enabled (SYSTEM_Initialize non_xc16_config system_power_on) =
     interrupts_enabled system_power_on"
proof -
  have xc: "XC16 repo_config" by (simp add: repo_config_def)
  have nxc: "\<not> XC16 non_xc16_config" by (simp add: non_xc16_config_def repo_config_def)
  have a: "stmt_trace (SYSTEM_Initialize_body repo_config) system_power_on =
     [\<lparr>system_state = SYS_STATE_INIT, interrupts_enabled = True, LATB = 0x00A5, TRISB = 0xFFFF\<rparr>,
      \<lparr>system_state = SYS_STATE_INIT, interrupts_enabled = False, LATB = 0x00A5, TRISB = 0xFFFF\<rparr>,
      \<lparr>system_state = SYS_STATE_INIT, interrupts_enabled = False, LATB = 0, TRISB = 0xFF00\<rparr>,
      \<lparr>system_state = SYS_STATE_READY, interrupts_enabled = False, LATB = 0, TRISB = 0xFF00\<rparr>,
      \<lparr>system_state = SYS_STATE_READY, interrupts_enabled = True, LATB = 0, TRISB = 0xFF00\<rparr>]"
    and b: "stmt_trace (ports_init_body repo_config)
       \<lparr>system_state = SYS_STATE_INIT, interrupts_enabled = False, LATB = 0x00A5, TRISB = 0xFFFF\<rparr> =
     [\<lparr>system_state = SYS_STATE_INIT, interrupts_enabled = False, LATB = 0x00A5, TRISB = 0xFFFF\<rparr>,
      \<lparr>system_state = SYS_STATE_INIT, interrupts_enabled = False, LATB = 0, TRISB = 0xFFFF\<rparr>,
      \<lparr>system_state = SYS_STATE_INIT, interrupts_enabled = False, LATB = 0, TRISB = 0xFF00\<rparr>]"
    by (simp_all add: SYSTEM_Initialize_body_def ports_init_def
        ports_init_body_def SYSTEM_EnableInterrupts_def SYSTEM_DisableInterrupts_def
        builtin_enable_interrupts_def builtin_disable_interrupts_def repo_config_def
        system_power_on_def)
  note order = SYSTEM_Initialize_order [of non_xc16_config system_power_on, unfolded Let_def]
  have last_in: "stmt_trace (SYSTEM_Initialize_body non_xc16_config) system_power_on ! 4
      \<in> set (stmt_trace (SYSTEM_Initialize_body non_xc16_config) system_power_on)"
    by (simp add: SYSTEM_Initialize_body_def)
  from order nxc have "\<forall>t \<in> set (stmt_trace (SYSTEM_Initialize_body non_xc16_config) system_power_on).
      interrupts_enabled t = interrupts_enabled system_power_on" by blast
  with last_in have "interrupts_enabled
      (stmt_trace (SYSTEM_Initialize_body non_xc16_config) system_power_on ! 4) =
      interrupts_enabled system_power_on" by blast
  moreover from order have "stmt_trace (SYSTEM_Initialize_body non_xc16_config) system_power_on ! 4 =
      SYSTEM_Initialize non_xc16_config system_power_on" by blast
  ultimately have c: "interrupts_enabled (SYSTEM_Initialize non_xc16_config system_power_on) =
     interrupts_enabled system_power_on" by simp
  from xc a b nxc c show ?thesis by (intro conjI)
qed

text \<open>
  Claim C8 as stated: from any starting interrupt-flag state, Disable, Disable, Enable
  leaves interrupts enabled. In a build without \<^verbatim>\<open>__XC16__\<close> both functions are
  empty, and from a disabled flag the sequence leaves it disabled.
\<close>

theorem interrupt_gate_outside_XC16_stays_disabled_counterexample:
  "\<not> interrupts_enabled
     (SYSTEM_EnableInterrupts non_xc16_config (SYSTEM_DisableInterrupts non_xc16_config
       (SYSTEM_DisableInterrupts non_xc16_config
         \<lparr>system_state = SYS_STATE_READY, interrupts_enabled = False, LATB = 0, TRISB = 0\<rparr>)))"
  by (simp add: SYSTEM_EnableInterrupts_def SYSTEM_DisableInterrupts_def non_xc16_config_def
      repo_config_def)

text \<open>
  Claim C8, amended. In a build with \<^verbatim>\<open>__XC16__\<close> the interrupt gate is a flat
  flag: from any state, Disable, Disable, Enable leaves interrupts enabled and nothing
  else changed, and so does one Enable after any number of Disables. In a build
  without \<^verbatim>\<open>__XC16__\<close> neither function does anything: the sequence leaves the
  flag, and the whole state, as it was.
\<close>

theorem interrupt_gate_does_not_nest:
  "(XC16 cfg \<longrightarrow>
      interrupts_enabled
        (SYSTEM_EnableInterrupts cfg (SYSTEM_DisableInterrupts cfg (SYSTEM_DisableInterrupts cfg s))) \<and>
      (\<forall>n. interrupts_enabled
         (SYSTEM_EnableInterrupts cfg ((SYSTEM_DisableInterrupts cfg ^^ n) s))) \<and>
      SYSTEM_EnableInterrupts cfg (SYSTEM_DisableInterrupts cfg (SYSTEM_DisableInterrupts cfg s)) =
        s\<lparr>interrupts_enabled := True\<rparr>) \<and>
   (\<not> XC16 cfg \<longrightarrow>
      SYSTEM_EnableInterrupts cfg (SYSTEM_DisableInterrupts cfg (SYSTEM_DisableInterrupts cfg s)) = s \<and>
      (\<forall>n. SYSTEM_EnableInterrupts cfg ((SYSTEM_DisableInterrupts cfg ^^ n) s) = s))"
proof (intro conjI impI)
  assume xc: "XC16 cfg"
  then show "interrupts_enabled
      (SYSTEM_EnableInterrupts cfg (SYSTEM_DisableInterrupts cfg (SYSTEM_DisableInterrupts cfg s)))"
    and "\<forall>n. interrupts_enabled
      (SYSTEM_EnableInterrupts cfg ((SYSTEM_DisableInterrupts cfg ^^ n) s))"
    and "SYSTEM_EnableInterrupts cfg (SYSTEM_DisableInterrupts cfg (SYSTEM_DisableInterrupts cfg s)) =
      s\<lparr>interrupts_enabled := True\<rparr>"
    by (simp_all add: SYSTEM_EnableInterrupts_def SYSTEM_DisableInterrupts_def
        builtin_enable_interrupts_def builtin_disable_interrupts_def)
next
  assume nxc: "\<not> XC16 cfg"
  then have idle: "(SYSTEM_DisableInterrupts cfg ^^ n) u = u" for n u
    by (induction n) (simp_all add: SYSTEM_DisableInterrupts_def)
  from nxc show "SYSTEM_EnableInterrupts cfg
      (SYSTEM_DisableInterrupts cfg (SYSTEM_DisableInterrupts cfg s)) = s"
    by (simp add: SYSTEM_EnableInterrupts_def SYSTEM_DisableInterrupts_def)
  from nxc show "\<forall>n. SYSTEM_EnableInterrupts cfg ((SYSTEM_DisableInterrupts cfg ^^ n) s) = s"
    by (simp add: idle SYSTEM_EnableInterrupts_def)
qed

theorem interrupt_gate_does_not_nest_witness:
  "XC16 repo_config \<and>
   interrupts_enabled (SYSTEM_EnableInterrupts repo_config (SYSTEM_DisableInterrupts repo_config
     (SYSTEM_DisableInterrupts repo_config
       \<lparr>system_state = SYS_STATE_READY, interrupts_enabled = False, LATB = 0, TRISB = 0\<rparr>))) \<and>
   \<not> XC16 non_xc16_config \<and>
   SYSTEM_EnableInterrupts non_xc16_config (SYSTEM_DisableInterrupts non_xc16_config
     (SYSTEM_DisableInterrupts non_xc16_config
       \<lparr>system_state = SYS_STATE_READY, interrupts_enabled = False, LATB = 0, TRISB = 0\<rparr>)) =
     \<lparr>system_state = SYS_STATE_READY, interrupts_enabled = False, LATB = 0, TRISB = 0\<rparr>"
proof -
  have xc: "XC16 repo_config" by (simp add: repo_config_def)
  have nxc: "\<not> XC16 non_xc16_config" by (simp add: non_xc16_config_def repo_config_def)
  from interrupt_gate_does_not_nest [of repo_config] xc
    interrupt_gate_does_not_nest [of non_xc16_config] nxc
  show ?thesis by blast
qed



lemma env_steps_Suc: "env_steps env k (Suc n) s = env (k + n) (env_steps env k n s)"
proof (induction n arbitrary: k s)
  case 0
  then show ?case by simp
next
  case (Suc n)
  have "env_steps env k (Suc (Suc n)) s = env_steps env (Suc k) (Suc n) (env k s)" by simp
  also have "\<dots> = env (Suc k + n) (env_steps env (Suc k) n (env k s))" by (rule Suc.IH)
  finally show ?case by simp
qed

text \<open>
  Claim C7 as stated: \<^verbatim>\<open>SYSTEM_EnterSleep\<close> returns only after another context
  calls \<^verbatim>\<open>SYSTEM_Wakeup\<close>, and the state is then Ready. The loop tests only
  whether the state is still Sleep: a context that calls \<^verbatim>\<open>SYSTEM_Deinitialize\<close>
  and never \<^verbatim>\<open>SYSTEM_Wakeup\<close> makes the call return as well, with state Init.
\<close>

theorem SYSTEM_EnterSleep_released_by_Deinitialize_counterexample:
  "SYSTEM_EnterSleep isr_deinitialize_after_two system_power_on =
     Some \<lparr>system_state = SYS_STATE_INIT, interrupts_enabled = True,
       LATB = 0x00A5, TRISB = 0xFFFF\<rparr> \<and>
   SYSTEM_GetState \<lparr>system_state = SYS_STATE_INIT, interrupts_enabled = True,
       LATB = 0x00A5, TRISB = 0xFFFF\<rparr> \<noteq> SYS_STATE_READY \<and>
   isr_deinitialize_after_two 2
       (env_steps isr_deinitialize_after_two 0 2 (SYSTEM_EnterSleep_mark system_power_on)) \<noteq>
     SYSTEM_Wakeup
       (env_steps isr_deinitialize_after_two 0 2 (SYSTEM_EnterSleep_mark system_power_on))"
  by code_simp

text \<open>
  Claim C7, amended. \<^verbatim>\<open>SYSTEM_EnterSleep\<close> first makes the state Sleep and then
  blocks the caller. It never returns exactly when every poll reads Sleep, so it does
  not return while the state remains Sleep. When it returns, it returns in the state
  that another context left between two polls, a state that is not Sleep, and every
  poll up to then, hence \<^verbatim>\<open>SYSTEM_GetState\<close> during the block, read Sleep. It
  returns as soon as another context has changed the state to anything but Sleep; when
  that context called \<^verbatim>\<open>SYSTEM_Wakeup\<close>, the state on return is Ready.
\<close>

theorem SYSTEM_EnterSleep_blocks_while_asleep:
  "(let polled = (\<lambda>n. env_steps isr 0 n (SYSTEM_EnterSleep_mark s)) in
      SYSTEM_GetState (polled 0) = SYS_STATE_SLEEP \<and>
      (SYSTEM_EnterSleep isr s = None \<longleftrightarrow> (\<forall>n. SYSTEM_GetState (polled n) = SYS_STATE_SLEEP)) \<and>
      (\<forall>t. SYSTEM_EnterSleep isr s = Some t \<longrightarrow>
         (\<exists>n. t = polled (Suc n) \<and> t = isr n (polled n) \<and>
              SYSTEM_GetState t \<noteq> SYS_STATE_SLEEP \<and>
              (\<forall>m\<le>n. SYSTEM_GetState (polled m) = SYS_STATE_SLEEP))) \<and>
      (\<forall>n. (\<forall>m\<le>n. SYSTEM_GetState (polled m) = SYS_STATE_SLEEP) \<and>
            SYSTEM_GetState (isr n (polled n)) \<noteq> SYS_STATE_SLEEP \<longrightarrow>
            SYSTEM_EnterSleep isr s = Some (isr n (polled n))) \<and>
      (\<forall>n. (\<forall>m\<le>n. SYSTEM_GetState (polled m) = SYS_STATE_SLEEP) \<and>
            isr n (polled n) = SYSTEM_Wakeup (polled n) \<longrightarrow>
            SYSTEM_EnterSleep isr s = Some (SYSTEM_Wakeup (polled n)) \<and>
            SYSTEM_GetState (SYSTEM_Wakeup (polled n)) = SYS_STATE_READY))"
proof -
  define polled where "polled = (\<lambda>n. env_steps isr 0 n (SYSTEM_EnterSleep_mark s))"
  define awake where "awake = (\<lambda>t :: system. \<not> (system_state t = SYS_STATE_SLEEP))"
  have p0: "SYSTEM_GetState (polled 0) = SYS_STATE_SLEEP"
    by (simp add: polled_def SYSTEM_GetState_def SYSTEM_EnterSleep_mark_def)
  have pS: "polled (Suc n) = isr n (polled n)" for n
    unfolding polled_def by (simp only: env_steps_Suc) simp
  have none: "SYSTEM_EnterSleep isr s = None \<longleftrightarrow>
      (\<forall>n. SYSTEM_GetState (polled n) = SYS_STATE_SLEEP)"
    by (simp add: SYSTEM_EnterSleep_def poll_until_None_iff polled_def SYSTEM_GetState_def)
  have some: "\<exists>n. t = polled (Suc n) \<and> t = isr n (polled n) \<and>
              SYSTEM_GetState t \<noteq> SYS_STATE_SLEEP \<and>
              (\<forall>m\<le>n. SYSTEM_GetState (polled m) = SYS_STATE_SLEEP)"
    if "SYSTEM_EnterSleep isr s = Some t" for t
  proof -
    from that obtain j where j: "t = polled j" "awake t" "\<forall>m<j. \<not> awake (polled m)"
      unfolding SYSTEM_EnterSleep_def awake_def polled_def
      by (blast dest: poll_until_Some)
    have "j \<noteq> 0"
    proof
      assume "j = 0"
      with j(1,2) p0 show False by (simp add: awake_def SYSTEM_GetState_def)
    qed
    then obtain n where n: "j = Suc n" by (cases j) simp_all
    from j(3) n have a: "\<forall>m\<le>n. SYSTEM_GetState (polled m) = SYS_STATE_SLEEP"
      by (simp add: awake_def SYSTEM_GetState_def less_Suc_eq_le)
    from j(1) n have b: "t = polled (Suc n)" by simp
    with pS [of n] have c: "t = isr n (polled n)" by simp
    from j(2) have d: "SYSTEM_GetState t \<noteq> SYS_STATE_SLEEP"
      by (simp add: awake_def SYSTEM_GetState_def)
    from a b c d show ?thesis by blast
  qed
  have release: "SYSTEM_EnterSleep isr s = Some (isr n (polled n))"
    if asleep: "\<forall>m\<le>n. SYSTEM_GetState (polled m) = SYS_STATE_SLEEP"
      and out: "SYSTEM_GetState (isr n (polled n)) \<noteq> SYS_STATE_SLEEP" for n
  proof -
    from out pS [of n] have "awake (env_steps isr 0 (Suc n) (SYSTEM_EnterSleep_mark s))"
      by (simp add: awake_def polled_def SYSTEM_GetState_def)
    moreover from asleep have "\<forall>m<Suc n. \<not> awake (env_steps isr 0 m (SYSTEM_EnterSleep_mark s))"
      by (simp add: awake_def polled_def SYSTEM_GetState_def less_Suc_eq_le)
    ultimately have "poll_until awake isr 0 (SYSTEM_EnterSleep_mark s) =
        Some (env_steps isr 0 (Suc n) (SYSTEM_EnterSleep_mark s))"
      by (rule poll_until_exit)
    with pS [of n] show ?thesis
      by (simp add: SYSTEM_EnterSleep_def awake_def polled_def)
  qed
  have wake: "SYSTEM_EnterSleep isr s = Some (SYSTEM_Wakeup (polled n)) \<and>
            SYSTEM_GetState (SYSTEM_Wakeup (polled n)) = SYS_STATE_READY"
    if asleep: "\<forall>m\<le>n. SYSTEM_GetState (polled m) = SYS_STATE_SLEEP"
      and w: "isr n (polled n) = SYSTEM_Wakeup (polled n)" for n
  proof -
    from asleep have "system_state (polled n) = SYS_STATE_SLEEP"
      by (simp add: SYSTEM_GetState_def)
    then have r: "SYSTEM_GetState (SYSTEM_Wakeup (polled n)) = SYS_STATE_READY"
      by (simp add: SYSTEM_Wakeup_def SYSTEM_GetState_def)
    with w have "SYSTEM_GetState (isr n (polled n)) \<noteq> SYS_STATE_SLEEP" by simp
    from release [OF asleep this] w r show ?thesis by simp
  qed
  from p0 none some release wake show ?thesis
    unfolding Let_def polled_def by blast
qed

lemma SYSTEM_EnterSleep_example:
  "SYSTEM_EnterSleep isr_wakeup_after_two system_power_on =
     Some \<lparr>system_state = SYS_STATE_READY, interrupts_enabled = True,
       LATB = 0x00A5, TRISB = 0xFFFF\<rparr>"
  by code_simp

theorem SYSTEM_EnterSleep_blocks_while_asleep_witness:
  "SYSTEM_EnterSleep isr_wakeup_after_two system_power_on =
     Some \<lparr>system_state = SYS_STATE_READY, interrupts_enabled = True,
       LATB = 0x00A5, TRISB = 0xFFFF\<rparr> \<and>
   SYSTEM_GetState \<lparr>system_state = SYS_STATE_READY, interrupts_enabled = True,
       LATB = 0x00A5, TRISB = 0xFFFF\<rparr> \<noteq> SYS_STATE_SLEEP \<and>
   SYSTEM_GetState (env_steps isr_wakeup_after_two 0 2 (SYSTEM_EnterSleep_mark system_power_on)) =
     SYS_STATE_SLEEP \<and>
   isr_wakeup_after_two 2
       (env_steps isr_wakeup_after_two 0 2 (SYSTEM_EnterSleep_mark system_power_on)) =
     SYSTEM_Wakeup (env_steps isr_wakeup_after_two 0 2 (SYSTEM_EnterSleep_mark system_power_on)) \<and>
   SYSTEM_EnterSleep (\<lambda>k u. u) system_power_on = None"
proof -
  note woken = SYSTEM_EnterSleep_blocks_while_asleep
    [of isr_wakeup_after_two system_power_on, unfolded Let_def]
  from woken [THEN conjunct2, THEN conjunct2, THEN conjunct1, rule_format,
      OF SYSTEM_EnterSleep_example]
  have awake: "SYSTEM_GetState \<lparr>system_state = SYS_STATE_READY, interrupts_enabled = True,
       LATB = 0x00A5, TRISB = 0xFFFF\<rparr> \<noteq> SYS_STATE_SLEEP"
    by blast
  have asleep: "SYSTEM_GetState
      (env_steps isr_wakeup_after_two 0 2 (SYSTEM_EnterSleep_mark system_power_on)) =
     SYS_STATE_SLEEP"
    by code_simp
  have call: "isr_wakeup_after_two 2
       (env_steps isr_wakeup_after_two 0 2 (SYSTEM_EnterSleep_mark system_power_on)) =
     SYSTEM_Wakeup (env_steps isr_wakeup_after_two 0 2 (SYSTEM_EnterSleep_mark system_power_on))"
    by (simp add: isr_wakeup_after_two_def)
  have idle: "env_steps (\<lambda>k u. u) k n s = s" for k n and s :: system
    by (induction n arbitrary: k) simp_all
  note never = SYSTEM_EnterSleep_blocks_while_asleep
    [of "\<lambda>k u. u" system_power_on, unfolded Let_def]
  have "\<forall>n. SYSTEM_GetState (env_steps (\<lambda>k u. u) 0 n (SYSTEM_EnterSleep_mark system_power_on)) =
      SYS_STATE_SLEEP"
    by (simp add: idle SYSTEM_GetState_def SYSTEM_EnterSleep_mark_def)
  then have none: "SYSTEM_EnterSleep (\<lambda>k u. u) system_power_on = None"
    by (rule never [THEN conjunct2, THEN conjunct1, THEN iffD2])
  from SYSTEM_EnterSleep_example awake asleep call none show ?thesis by (intro conjI)
qed

lemma SYSTEM_Deinitialize_state:
  "system_state (SYSTEM_Deinitialize cfg s) = SYS_STATE_INIT"
  by (simp add: SYSTEM_Deinitialize_def Let_def)

lemma reachable_states:
  "reachable cfg s \<Longrightarrow> system_state s \<in> {SYS_STATE_INIT, SYS_STATE_READY, SYS_STATE_SLEEP}"
proof (induction rule: reachable.induct)
  case (power_on s)
  then show ?case by simp
next
  case (Initialize s)
  then show ?case by (simp add: SYSTEM_Initialize_fields)
next
  case (Deinitialize s)
  then show ?case by (simp add: SYSTEM_Deinitialize_state)
next
  case (EnterSleep s)
  then show ?case by (simp add: SYSTEM_EnterSleep_mark_def)
next
  case (Wakeup s)
  then show ?case by (auto simp: SYSTEM_Wakeup_def)
next
  case (Reset s)
  then show ?case by (simp add: SYSTEM_Reset_mark_def)
next
  case (EnableInterrupts s)
  then show ?case by (simp add: SYSTEM_EnableInterrupts_def builtin_enable_interrupts_def)
next
  case (DisableInterrupts s)
  then show ?case by (simp add: SYSTEM_DisableInterrupts_def builtin_disable_interrupts_def)
qed

lemma env_steps_reachable:
  "(\<And>k u. reachable cfg u \<Longrightarrow> reachable cfg (isr k u)) \<Longrightarrow> reachable cfg s \<Longrightarrow>
   reachable cfg (env_steps isr k n s)"
  by (induction n arbitrary: k s) simp_all

lemma SYSTEM_Reset_never_returns: "SYSTEM_Reset isr s = None"
  by (simp add: SYSTEM_Reset_def poll_until_None_iff)

text \<open>
  Claim C10. Every state reachable from power-on through the lifecycle operations has
  \<^verbatim>\<open>system_state\<close> in Init, Ready or Sleep: Busy and Error are never assigned.
  \<^verbatim>\<open>SYSTEM_EnterSleep\<close> as a whole, with interrupt contexts that themselves only
  take reachable states to reachable states, returns in a reachable state, and
  \<^verbatim>\<open>SYSTEM_Reset\<close> never returns.
\<close>

theorem busy_and_error_unreachable:
  "reachable cfg s \<Longrightarrow>
   SYSTEM_GetState s \<in> {SYS_STATE_INIT, SYS_STATE_READY, SYS_STATE_SLEEP} \<and>
   SYSTEM_GetState s \<noteq> SYS_STATE_BUSY \<and> SYSTEM_GetState s \<noteq> SYS_STATE_ERROR \<and>
   (\<forall>isr t. (\<forall>k u. reachable cfg u \<longrightarrow> reachable cfg (isr k u)) \<and>
       SYSTEM_EnterSleep isr s = Some t \<longrightarrow>
       reachable cfg t \<and> SYSTEM_GetState t \<in> {SYS_STATE_INIT, SYS_STATE_READY}) \<and>
   (\<forall>isr. SYSTEM_Reset isr s = None)"
proof -
  assume r: "reachable cfg s"
  have a: "SYSTEM_GetState s \<in> {SYS_STATE_INIT, SYS_STATE_READY, SYS_STATE_SLEEP}"
    using reachable_states [OF r] by (simp add: SYSTEM_GetState_def)
  then have b: "SYSTEM_GetState s \<noteq> SYS_STATE_BUSY \<and> SYSTEM_GetState s \<noteq> SYS_STATE_ERROR"
    by auto
  have c: "reachable cfg t \<and> SYSTEM_GetState t \<in> {SYS_STATE_INIT, SYS_STATE_READY}"
    if env: "\<forall>k u. reachable cfg u \<longrightarrow> reachable cfg (isr k u)"
      and ret: "SYSTEM_EnterSleep isr s = Some t" for isr t
  proof -
    from ret obtain n where n: "t = env_steps isr 0 n (SYSTEM_EnterSleep_mark s)"
      and awake: "system_state t \<noteq> SYS_STATE_SLEEP"
      unfolding SYSTEM_EnterSleep_def by (blast dest: poll_until_Some)
    from r have "reachable cfg (SYSTEM_EnterSleep_mark s)" by (rule reachable.EnterSleep)
    with env have rt: "reachable cfg t" unfolding n by (blast intro: env_steps_reachable)
    from reachable_states [OF rt] awake show ?thesis
      using rt by (simp add: SYSTEM_GetState_def)
  qed
  from c have c': "\<forall>isr t. (\<forall>k u. reachable cfg u \<longrightarrow> reachable cfg (isr k u)) \<and>
       SYSTEM_EnterSleep isr s = Some t \<longrightarrow>
       reachable cfg t \<and> SYSTEM_GetState t \<in> {SYS_STATE_INIT, SYS_STATE_READY}"
    by blast
  have d: "\<forall>isr. SYSTEM_Reset isr s = None"
    by (simp add: SYSTEM_Reset_never_returns)
  show ?thesis
    by (intro conjI) (rule a, rule b [THEN conjunct1], rule b [THEN conjunct2], rule c', rule d)
qed

theorem busy_and_error_unreachable_witness:
  "reachable repo_config system_power_on \<and>
   SYSTEM_GetState system_power_on \<in> {SYS_STATE_INIT, SYS_STATE_READY, SYS_STATE_SLEEP} \<and>
   SYSTEM_EnterSleep isr_wakeup_after_two system_power_on =
     Some \<lparr>system_state = SYS_STATE_READY, interrupts_enabled = True,
       LATB = 0x00A5, TRISB = 0xFFFF\<rparr> \<and>
   reachable repo_config \<lparr>system_state = SYS_STATE_READY, interrupts_enabled = True,
       LATB = 0x00A5, TRISB = 0xFFFF\<rparr>"
proof -
  have r: "reachable repo_config system_power_on"
    by (rule reachable.power_on) (simp add: system_power_on_def)
  have env: "\<forall>k u. reachable repo_config u \<longrightarrow> reachable repo_config (isr_wakeup_after_two k u)"
    by (simp add: isr_wakeup_after_two_def reachable.Wakeup)
  note inv = busy_and_error_unreachable [OF r]
  have a: "SYSTEM_GetState system_power_on \<in> {SYS_STATE_INIT, SYS_STATE_READY, SYS_STATE_SLEEP}"
    by (rule inv [THEN conjunct1])
  have b: "reachable repo_config \<lparr>system_state = SYS_STATE_READY, interrupts_enabled = True,
       LATB = 0x00A5, TRISB = 0xFFFF\<rparr>"
    by (rule inv [THEN conjunct2, THEN conjunct2, THEN conjunct2, THEN conjunct1, rule_format,
          OF conjI, OF env SYSTEM_EnterSleep_example, THEN conjunct1])
  from r a SYSTEM_EnterSleep_example b show ?thesis by (intro conjI)
qed

end
